theory Spec2Isabelle
  imports Complex_Main "HOL-Library.Sublist" "HOL-Library.Multiset"
begin

section \<open>Python values, exceptions and library operations\<close>

text \<open>
  The program is \<^verbatim>\<open>app.py\<close>: a Streamlit page around \<^verbatim>\<open>load_data\<close>,
  \<^verbatim>\<open>get_recommendations\<close> and the search box of \<^verbatim>\<open>main\<close>.

  The catalog \<^verbatim>\<open>movies_df\<close> is read only through its \<^verbatim>\<open>title\<close> column, so it is the
  list of titles in row order; the frame carries the default index, where the label of a
  row is its position. The similarity matrix is a list of rows of scores. A score is a
  finite float; only its order is used, so it is a \<open>real\<close>.
\<close>

datatype py_error = IndexError | KeyError | ValueError | TypeError | OSError | ReError

text \<open>
  A Python \<^verbatim>\<open>str\<close> is either given text or the text that \<^verbatim>\<open>f"{x:.2%}"\<close> renders for the
  float \<open>x\<close>. The digits of that rendering depend on binary floating point and are kept
  symbolic.
\<close>

datatype pystr = Lit string | Percent2 real

datatype pyval = Str pystr | Float real

type_synonym pydict = "(string \<times> pyval) list"

text \<open>\<^verbatim>\<open>xs[0]\<close>: raises \<^verbatim>\<open>IndexError\<close> on an empty sequence.\<close>

definition item0 :: "'a list \<Rightarrow> py_error + 'a" where
  "item0 xs = (case xs of [] \<Rightarrow> Inl IndexError | x # _ \<Rightarrow> Inr x)"

text \<open>\<^verbatim>\<open>xs[i]\<close> for an index \<open>i \<ge> 0\<close> (numpy row access, and \<^verbatim>\<open>.iloc[i]\<close>).\<close>

definition item :: "'a list \<Rightarrow> nat \<Rightarrow> py_error + 'a" where
  "item xs i = (if i < length xs then Inr (xs ! i) else Inl IndexError)"

text \<open>
  \<^verbatim>\<open>sorted(xs, reverse=True, key=key)\<close>: CPython reverses the list, sorts it stably in
  ascending key order, and reverses the outcome.
\<close>

definition sorted_py_reverse :: "('a \<Rightarrow> 'k::linorder) \<Rightarrow> 'a list \<Rightarrow> 'a list" where
  "sorted_py_reverse key xs = rev (sort_key key (rev xs))"

text \<open>
  \<^verbatim>\<open>xs[start:stop]\<close> with integer bounds: a negative bound counts from the end, and
  both bounds are clamped to the length.
\<close>

definition slice_bound :: "nat \<Rightarrow> int \<Rightarrow> nat" where
  "slice_bound len k = (if k < 0 then nat (max 0 (k + int len)) else min (nat k) len)"

definition py_slice :: "'a list \<Rightarrow> int \<Rightarrow> int \<Rightarrow> 'a list" where
  "py_slice xs start stop =
     (let lo = slice_bound (length xs) start; hi = slice_bound (length xs) stop
      in take (hi - lo) (drop lo xs))"

section \<open>get_recommendations\<close>

text \<open>\<^verbatim>\<open>movies_df[movies_df['title'] == movie_title].index\<close>: the labels of the matching rows.\<close>

definition matching_index :: "string list \<Rightarrow> string \<Rightarrow> nat list" where
  "matching_index movies_df movie_title =
     filter (\<lambda>i. movies_df ! i = movie_title) [0..<length movies_df]"

text \<open>The dictionary appended for one ranked pair.\<close>

definition entry :: "string \<Rightarrow> real \<Rightarrow> pydict" where
  "entry t s = [(''title'', Str (Lit t)), (''similarity'', Str (Percent2 s))]"

text \<open>The \<^verbatim>\<open>for i in movies_list\<close> loop, appending to \<^verbatim>\<open>recommended_movies\<close>.\<close>

fun append_loop :: "string list \<Rightarrow> (nat \<times> real) list \<Rightarrow> pydict list \<Rightarrow> py_error + pydict list" where
  "append_loop movies_df [] recommended_movies = Inr recommended_movies"
| "append_loop movies_df (i # movies_list) recommended_movies =
     (case item movies_df (fst i) of
        Inl e \<Rightarrow> Inl e
      | Inr t \<Rightarrow> append_loop movies_df movies_list (recommended_movies @ [entry t (snd i)]))"

text \<open>The ranked pairs kept for a similarity row: lines 72 to 74.\<close>

definition movies_list_of :: "real list \<Rightarrow> int \<Rightarrow> (nat \<times> real) list" where
  "movies_list_of distances n_recommendations =
     py_slice (sorted_py_reverse snd (enumerate 0 distances)) 1 (n_recommendations + 1)"

text \<open>Lines 68 to 83, once \<^verbatim>\<open>movie_index\<close> is known.\<close>

definition recommend_from :: "nat \<Rightarrow> string list \<Rightarrow> real list list \<Rightarrow> int \<Rightarrow> py_error + pydict list" where
  "recommend_from movie_index movies_df similarity n_recommendations =
     (case item similarity movie_index of
        Inl e \<Rightarrow> Inl e
      | Inr distances \<Rightarrow>
          append_loop movies_df (movies_list_of distances n_recommendations) [])"

text \<open>The body of the \<^verbatim>\<open>try\<close> block.\<close>

definition lookup :: "string \<Rightarrow> string list \<Rightarrow> real list list \<Rightarrow> int \<Rightarrow> py_error + pydict list" where
  "lookup movie_title movies_df similarity n_recommendations =
     (case item0 (matching_index movies_df movie_title) of
        Inl e \<Rightarrow> Inl e
      | Inr movie_index \<Rightarrow>
          recommend_from movie_index movies_df similarity n_recommendations)"

text \<open>
  \<^verbatim>\<open>except IndexError: return None\<close>. The outcome of a call is \<open>Inr (Some r)\<close> for a
  returned list, \<open>Inr None\<close> for a returned \<^verbatim>\<open>None\<close>, and \<open>Inl e\<close> for an exception
  that leaves the function.
\<close>

definition except_IndexError :: "py_error + 'a \<Rightarrow> py_error + 'a option" where
  "except_IndexError r =
     (case r of
        Inr v \<Rightarrow> Inr (Some v)
      | Inl e \<Rightarrow> (if e = IndexError then Inr None else Inl e))"

definition get_recommendations ::
  "string \<Rightarrow> string list \<Rightarrow> real list list \<Rightarrow> int \<Rightarrow> py_error + pydict list option" where
  "get_recommendations movie_title movies_df similarity n_recommendations =
     except_IndexError (lookup movie_title movies_df similarity n_recommendations)"

section \<open>load_data\<close>

text \<open>
  The two pickled artifacts as the process finds them: \<open>None\<close> for a file that is
  missing or cannot be unpickled, so that reading it raises.
\<close>

record artifacts =
  movies_data_pkl :: "string list option"
  similarity_pkl :: "real list list option"

definition read_pickle :: "'a option \<Rightarrow> py_error + 'a" where
  "read_pickle file = (case file of None \<Rightarrow> Inl OSError | Some v \<Rightarrow> Inr v)"

text \<open>
  Lines 50 to 59. The bare \<^verbatim>\<open>except\<close> catches whatever either read raises and returns
  \<^verbatim>\<open>(None, None)\<close> (after showing a message). Nothing compares the two sizes.
\<close>

definition load_data :: "artifacts \<Rightarrow> string list option \<times> real list list option" where
  "load_data files =
     (case read_pickle (movies_data_pkl files) of
        Inl e \<Rightarrow> (None, None)
      | Inr movies_df \<Rightarrow>
          (case read_pickle (similarity_pkl files) of
             Inl e \<Rightarrow> (None, None)
           | Inr similarity \<Rightarrow> (Some movies_df, Some similarity)))"

section \<open>The count slider\<close>

text \<open>
  \<^verbatim>\<open>st.slider(min_value, max_value, value, step)\<close> returns a position of its track: the
  values from \<^verbatim>\<open>min_value\<close> up to \<^verbatim>\<open>max_value\<close> in steps of \<^verbatim>\<open>step\<close>.
\<close>

definition slider_track :: "int \<Rightarrow> int \<Rightarrow> int \<Rightarrow> int list" where
  "slider_track min_value max_value step =
     map (\<lambda>k. min_value + step * int k) [0..<Suc (nat ((max_value - min_value) div step))]"

text \<open>Lines 110 to 116: the counts \<^verbatim>\<open>main\<close> can pass to \<^verbatim>\<open>get_recommendations\<close>.\<close>

definition n_recommendations_track :: "int list" where
  "n_recommendations_track = slider_track 3 10 1"

section \<open>The search box\<close>

text \<open>
  Lines 137 to 139 call \<^verbatim>\<open>str.contains(search_query, case=False, na=False)\<close>. The
  \<^verbatim>\<open>regex\<close> argument is left at its default \<^verbatim>\<open>True\<close>, so pandas compiles the query with
  \<^verbatim>\<open>re.compile(search_query, re.IGNORECASE)\<close> and keeps the titles where \<^verbatim>\<open>search\<close> finds
  a match.

  Python's \<^verbatim>\<open>re\<close> is modelled on a fragment of its pattern language: a pattern of
  ordinary characters and dots compiles to one atom per character; a pattern that starts
  with a repetition operator is rejected with \<^verbatim>\<open>re.error\<close> (nothing to repeat); any other
  pattern is outside the fragment. Titles are ASCII text.
\<close>

datatype 'a outcome = Returns 'a | Raises py_error | Unmodelled

datatype re_atom = AnyChar | Literal char

definition re_special :: "char list" where
  "re_special = ''.^$*+?{}[]|()'' @ [CHR 0x5C]"

definition re_compile :: "string \<Rightarrow> re_atom list outcome" where
  "re_compile pat =
     (if pat \<noteq> [] \<and> hd pat \<in> set ''*+?'' then Raises ReError
      else if list_all (\<lambda>c. c = CHR ''.'' \<or> c \<notin> set re_special) pat
      then Returns (map (\<lambda>c. if c = CHR ''.'' then AnyChar else Literal c) pat)
      else Unmodelled)"

definition ascii_lower :: "char \<Rightarrow> char" where
  "ascii_lower c =
     (let k = of_char c :: nat in if 65 \<le> k \<and> k \<le> 90 then char_of (k + 32) else c)"

text \<open>Under \<^verbatim>\<open>IGNORECASE\<close> a literal matches either case; a dot matches all but a newline.\<close>

definition atom_matches :: "re_atom \<Rightarrow> char \<Rightarrow> bool" where
  "atom_matches a c =
     (case a of AnyChar \<Rightarrow> c \<noteq> CHR 0x0A | Literal l \<Rightarrow> ascii_lower l = ascii_lower c)"

fun match_here :: "re_atom list \<Rightarrow> string \<Rightarrow> bool" where
  "match_here [] s = True"
| "match_here (a # rest) [] = False"
| "match_here (a # rest) (c # s) = (atom_matches a c \<and> match_here rest s)"

fun re_search :: "re_atom list \<Rightarrow> string \<Rightarrow> bool" where
  "re_search re [] = match_here re []"
| "re_search re (c # s) = (match_here re (c # s) \<or> re_search re s)"

definition filtered_movies :: "string \<Rightarrow> string list \<Rightarrow> string list outcome" where
  "filtered_movies search_query movies_df =
     (case re_compile search_query of
        Raises e \<Rightarrow> Raises e
      | Unmodelled \<Rightarrow> Unmodelled
      | Returns re \<Rightarrow> Returns (filter (re_search re) movies_df))"

text \<open>
  The search as the specification words it: the titles that contain the query as a
  literal substring, ignoring case, in catalog order.
\<close>

definition spec_search :: "string \<Rightarrow> string list \<Rightarrow> string list" where
  "spec_search s catalog =
     filter (\<lambda>t. sublist (map ascii_lower s) (map ascii_lower t)) catalog"

section \<open>Title resolution\<close>

lemma matching_index_Nil:
  "matching_index movies_df t = [] \<longleftrightarrow> t \<notin> set movies_df"
  by (auto simp: matching_index_def filter_empty_conv in_set_conv_nth)

lemma filter_upt_first:
  assumes "i < n" and "P i" and "\<forall>j<i. \<not> P j"
  shows "filter P [0..<n] = i # filter P [Suc i..<n]"
proof -
  have "[0..<n] = [0..<i] @ i # [Suc i..<n]"
    using assms(1) by (metis le0 upt_conv_Cons upt_add_eq_append le_add_diff_inverse less_imp_le)
  moreover have "filter P [0..<i] = []"
    using assms(3) by (simp add: filter_empty_conv)
  ultimately show ?thesis
    using assms(2) by simp
qed

lemma item0_matching_index:
  assumes "i < length movies_df" and "movies_df ! i = t" and "\<forall>j<i. movies_df ! j \<noteq> t"
  shows "item0 (matching_index movies_df t) = Inr i"
  unfolding matching_index_def
  using filter_upt_first [of i "length movies_df" "\<lambda>k. movies_df ! k = t"] assms
  by (simp add: item0_def)

lemma first_occurrence:
  assumes "t \<in> set movies_df"
  shows "\<exists>i. i < length movies_df \<and> movies_df ! i = t \<and> (\<forall>j<i. movies_df ! j \<noteq> t)"
proof -
  let ?P = "\<lambda>i. i < length movies_df \<and> movies_df ! i = t"
  define k where "k = (LEAST i. ?P i)"
  have ex: "\<exists>i. ?P i"
    using assms by (auto simp: in_set_conv_nth)
  then have k: "?P k"
    unfolding k_def by (rule LeastI_ex)
  have least: "\<not> ?P j" if "j < k" for j
    using that unfolding k_def by (rule not_less_Least)
  have "movies_df ! j \<noteq> t" if "j < k" for j
  proof -
    from that k have "j < length movies_df"
      by simp
    with least [OF that] show ?thesis
      by simp
  qed
  with k show ?thesis
    by blast
qed


lemma item0_Inr_nonempty: "item0 xs = Inr x \<Longrightarrow> xs \<noteq> []"
  by (cases xs) (simp_all add: item0_def)

lemma item0_matching_index_iff:
  "item0 (matching_index movies_df t) = Inr i \<longleftrightarrow>
     i < length movies_df \<and> movies_df ! i = t \<and> (\<forall>j<i. movies_df ! j \<noteq> t)"
proof
  assume r: "item0 (matching_index movies_df t) = Inr i"
  then have "matching_index movies_df t \<noteq> []"
    by (rule item0_Inr_nonempty)
  then have "t \<in> set movies_df"
    by (simp add: matching_index_Nil)
  then obtain k where k: "k < length movies_df" "movies_df ! k = t" "\<forall>j<k. movies_df ! j \<noteq> t"
    using first_occurrence [of t movies_df] by blast
  then have rk: "item0 (matching_index movies_df t) = Inr k"
    by (rule item0_matching_index)
  have "Inr i = (Inr k :: py_error + nat)"
    by (rule trans [OF r [symmetric] rk])
  then have "i = k"
    by (simp only: sum.inject)
  with k show "i < length movies_df \<and> movies_df ! i = t \<and> (\<forall>j<i. movies_df ! j \<noteq> t)"
    by (simp only: simp_thms)
next
  assume a: "i < length movies_df \<and> movies_df ! i = t \<and> (\<forall>j<i. movies_df ! j \<noteq> t)"
  show "item0 (matching_index movies_df t) = Inr i"
    by (rule item0_matching_index) (use a in blast)+
qed

lemma item0_matching_index_missing:
  "t \<notin> set movies_df \<Longrightarrow> item0 (matching_index movies_df t) = Inl IndexError"
  using matching_index_Nil [of movies_df t] by (simp add: item0_def)

lemma get_recommendations_found:
  "item0 (matching_index movies_df t) = Inr i \<Longrightarrow>
   get_recommendations t movies_df similarity n = except_IndexError (recommend_from i movies_df similarity n)"
  by (simp add: get_recommendations_def lookup_def)

lemma get_recommendations_missing:
  "t \<notin> set movies_df \<Longrightarrow> get_recommendations t movies_df similarity n = Inr None"
  by (simp add: get_recommendations_def lookup_def item0_matching_index_missing except_IndexError_def)

text \<open>
  Claim C4. The query title is resolved to the lowest index whose title equals it exactly
  (string equality, so case matters); with duplicate titles the lowest index is taken; a
  title that occurs nowhere makes the call return \<^verbatim>\<open>None\<close>, the function's not-found result.
\<close>

theorem title_resolution:
  "(item0 (matching_index movies_df t) = Inr i \<longleftrightarrow>
      i < length movies_df \<and> movies_df ! i = t \<and> (\<forall>j<i. movies_df ! j \<noteq> t))
   \<and> (item0 (matching_index movies_df t) = Inr i \<longrightarrow>
        get_recommendations t movies_df similarity n
          = except_IndexError (recommend_from i movies_df similarity n))
   \<and> (t \<notin> set movies_df \<longrightarrow> get_recommendations t movies_df similarity n = Inr None)"
proof (intro conjI impI)
  show "item0 (matching_index movies_df t) = Inr i \<longleftrightarrow>
      i < length movies_df \<and> movies_df ! i = t \<and> (\<forall>j<i. movies_df ! j \<noteq> t)"
    by (rule item0_matching_index_iff)
next
  assume "item0 (matching_index movies_df t) = Inr i"
  then show "get_recommendations t movies_df similarity n
          = except_IndexError (recommend_from i movies_df similarity n)"
    by (rule get_recommendations_found)
next
  assume "t \<notin> set movies_df"
  then show "get_recommendations t movies_df similarity n = Inr None"
    by (rule get_recommendations_missing)
qed


theorem title_resolution_witness:
  "item0 (matching_index [''Up'', ''Heat'', ''Heat''] ''Heat'') = Inr 1
   \<and> get_recommendations ''Heat'' [''Up'', ''Heat'', ''Heat''] [[1, 0.2, 0.2], [0.2, 1, 1], [0.2, 1, 1]] 1
       = Inr (Some [entry ''Heat'' 1])
   \<and> get_recommendations ''heat'' [''Up'', ''Heat'', ''Heat''] [[1, 0.2, 0.2], [0.2, 1, 1], [0.2, 1, 1]] 1
       = Inr None"
proof -
  let ?df = "[''Up'', ''Heat'', ''Heat'']"
  let ?sim = "[[1, 0.2, 0.2], [0.2, 1, 1], [0.2, 1, 1]] :: real list list"
  note found = title_resolution [of ?df "''Heat''" 1 ?sim 1]
  note missing = title_resolution [of ?df "''heat''" 0 ?sim 1]
  have a: "1 < length ?df \<and> ?df ! 1 = ''Heat'' \<and> (\<forall>j<1. ?df ! j \<noteq> ''Heat'')"
    by simp
  have b: "''heat'' \<notin> set ?df"
    by simp
  have c: "except_IndexError (recommend_from 1 ?df ?sim 1) = Inr (Some [entry ''Heat'' 1])"
    by code_simp
  have 1: "item0 (matching_index ?df ''Heat'') = Inr 1"
    by (rule found [THEN conjunct1, THEN iffD2, OF a])
  have 2: "get_recommendations ''Heat'' ?df ?sim 1 = Inr (Some [entry ''Heat'' 1])"
    by (rule trans [OF found [THEN conjunct2, THEN conjunct1, THEN mp, OF 1] c])
  have 3: "get_recommendations ''heat'' ?df ?sim 1 = Inr None"
    by (rule missing [THEN conjunct2, THEN conjunct2, THEN mp, OF b])
  from 1 2 3 show ?thesis
    by (intro conjI)
qed

section \<open>The loop, the sort and the slice\<close>

lemma append_loop_ok:
  "\<forall>p\<in>set ms. fst p < length df \<Longrightarrow>
   append_loop df ms acc = Inr (acc @ map (\<lambda>p. entry (df ! fst p) (snd p)) ms)"
  by (induction ms arbitrary: acc) (simp_all add: item_def)

lemma append_loop_fail:
  "\<exists>p\<in>set ms. \<not> fst p < length df \<Longrightarrow> append_loop df ms acc = Inl IndexError"
  by (induction ms arbitrary: acc) (auto simp: item_def)

lemma insort_key_tiebreak:
  assumes "sorted_wrt (\<lambda>p q. f p < f q \<or> (f p = f q \<and> Q p q)) zs"
      and "\<forall>z\<in>set zs. Q x z"
  shows "sorted_wrt (\<lambda>p q. f p < f q \<or> (f p = f q \<and> Q p q)) (insort_key f x zs)"
  using assms
proof (induction zs)
  case Nil
  then show ?case by simp
next
  case (Cons y ys)
  show ?case
  proof (cases "f x \<le> f y")
    case True
    have "\<forall>z\<in>set ys. f y \<le> f z"
      using Cons.prems(1) by auto
    with True have "\<forall>z\<in>set (y # ys). f x \<le> f z"
      by auto
    with Cons.prems show ?thesis
      using True by (auto simp: le_less)
  next
    case False
    with Cons show ?thesis
      by (auto simp: set_insort_key)
  qed
qed

lemma sort_key_tiebreak:
  "sorted_wrt Q ys \<Longrightarrow>
   sorted_wrt (\<lambda>p q. f p < f q \<or> (f p = f q \<and> Q p q)) (sort_key f ys)"
proof (induction ys)
  case Nil
  then show ?case by simp
next
  case (Cons y ys)
  then show ?case
    by (simp add: insort_key_tiebreak)
qed

lemma sorted_py_reverse_tiebreak:
  assumes "sorted_wrt Q xs"
  shows "sorted_wrt (\<lambda>p q. key q < key p \<or> (key p = key q \<and> Q p q)) (sorted_py_reverse key xs)"
proof -
  have "sorted_wrt (\<lambda>p q. Q q p) (rev xs)"
    using assms by (simp add: sorted_wrt_rev)
  then have "sorted_wrt (\<lambda>p q. key p < key q \<or> (key p = key q \<and> Q q p)) (sort_key key (rev xs))"
    by (rule sort_key_tiebreak)
  then show ?thesis
    unfolding sorted_py_reverse_def sorted_wrt_rev
    by (rule sorted_wrt_mono_rel [rotated]) auto
qed

lemma enumerate_index_order: "sorted_wrt (\<lambda>p q. fst p < fst q) (enumerate 0 xs)"
proof -
  have "sorted_wrt (<) (map fst (enumerate 0 xs))"
    by (simp add: sorted_wrt_upt)
  then show ?thesis
    by (simp only: sorted_wrt_map)
qed

lemma set_sorted_py_reverse: "set (sorted_py_reverse key xs) = set xs"
  by (simp add: sorted_py_reverse_def)

lemma length_sorted_py_reverse: "length (sorted_py_reverse key xs) = length xs"
  by (simp add: sorted_py_reverse_def)

lemma mset_sorted_py_reverse: "mset (sorted_py_reverse key xs) = mset xs"
  by (simp add: sorted_py_reverse_def)

lemma set_py_slice: "set (py_slice xs a b) \<subseteq> set xs"
  unfolding py_slice_def Let_def
  by (meson set_take_subset set_drop_subset subset_trans)

lemma sorted_wrt_py_slice: "sorted_wrt R xs \<Longrightarrow> sorted_wrt R (py_slice xs a b)"
  unfolding py_slice_def Let_def
  by (simp add: sorted_wrt_take sorted_wrt_drop)

lemma take_min_length: "take (min a (length ys)) ys = take a ys"
  by (simp add: min_def)

lemma py_slice_nonneg: "0 \<le> n \<Longrightarrow> py_slice xs 1 (n + 1) = take (nat n) (drop 1 xs)"
proof (cases xs)
  case Nil
  then show ?thesis by (simp add: py_slice_def slice_bound_def)
next
  case (Cons y ys)
  assume "0 \<le> n"
  then have "min (nat (n + 1)) (Suc (length ys)) - 1 = min (nat n) (length ys)"
    by (simp add: nat_add_distrib)
  with Cons \<open>0 \<le> n\<close> show ?thesis
    by (simp add: py_slice_def slice_bound_def take_min_length)
qed

lemma py_slice_minus1: "py_slice xs 1 0 = []"
  by (simp add: py_slice_def slice_bound_def)

lemma py_slice_negative:
  "n < - 1 \<Longrightarrow> py_slice xs 1 (n + 1) = take (nat (int (length xs) + n)) (drop 1 xs)"
proof (cases xs)
  case Nil
  then show ?thesis by (simp add: py_slice_def slice_bound_def)
next
  case (Cons y ys)
  assume n: "n < - 1"
  have "nat (max 0 (n + 1 + int (Suc (length ys)))) - 1 = nat (int (Suc (length ys)) + n)"
    by (simp add: max_def) linarith
  with Cons n show ?thesis
    by (simp add: py_slice_def slice_bound_def)
qed


lemma ranked_order:
  "sorted_wrt (\<lambda>p q. snd q < snd p \<or> (snd p = snd q \<and> fst p < fst q))
     (sorted_py_reverse snd (enumerate 0 distances))"
  using enumerate_index_order by (rule sorted_py_reverse_tiebreak)

lemma movies_list_of_order:
  "sorted_wrt (\<lambda>p q. snd q < snd p \<or> (snd p = snd q \<and> fst p < fst q))
     (movies_list_of distances n)"
  unfolding movies_list_of_def using ranked_order by (rule sorted_wrt_py_slice)

lemma movies_list_of_member:
  assumes "p \<in> set (movies_list_of distances n)"
  shows "fst p < length distances \<and> snd p = distances ! fst p"
proof -
  have "p \<in> set (enumerate 0 distances)"
    using assms set_py_slice [of "sorted_py_reverse snd (enumerate 0 distances)" 1 "n + 1"]
    by (auto simp: movies_list_of_def set_sorted_py_reverse)
  moreover obtain j s where "p = (j, s)"
    by (cases p)
  ultimately show ?thesis
    by (simp add: in_set_enumerate_eq)
qed

lemma movies_list_of_nonneg:
  "0 \<le> n \<Longrightarrow>
   movies_list_of distances n = take (nat n) (drop 1 (sorted_py_reverse snd (enumerate 0 distances)))"
  by (simp add: movies_list_of_def py_slice_nonneg)

lemma length_movies_list_of:
  "0 \<le> n \<Longrightarrow> length (movies_list_of distances n) = min (nat n) (length distances - 1)"
  by (simp add: movies_list_of_nonneg length_sorted_py_reverse)

lemma scores_descending:
  "sorted_wrt (\<lambda>a b. b \<le> a) (map snd (movies_list_of distances n))"
proof -
  have "sorted_wrt (\<lambda>p q. snd q \<le> snd p) (movies_list_of distances n)"
    using movies_list_of_order [of distances n]
    by (rule sorted_wrt_mono_rel [rotated]) auto
  then show ?thesis
    by (simp only: sorted_wrt_map)
qed

lemma recommend_from_ok:
  assumes "i < length similarity" and "length (similarity ! i) \<le> length movies_df"
  shows "recommend_from i movies_df similarity n
     = Inr (map (\<lambda>p. entry (movies_df ! fst p) (snd p)) (movies_list_of (similarity ! i) n))"
proof -
  have "\<forall>p\<in>set (movies_list_of (similarity ! i) n). fst p < length movies_df"
    using movies_list_of_member [of _ "similarity ! i" n] assms(2) by fastforce
  then show ?thesis
    using assms(1) by (simp add: recommend_from_def item_def append_loop_ok)
qed

section \<open>Ranking\<close>

text \<open>
  Claim C2. The pairs of the query's row are ranked by score, highest first, and pairs
  with equal scores keep their ascending index order; the ranking is a rearrangement of
  the enumerated row. For the catalog A, B, C with the row 1.0, 0.5, 0.5 for A, a request
  for two items returns B before C.
\<close>

theorem stable_descending_sort:
  "sorted_wrt (\<lambda>p q. snd q < snd p \<or> (snd p = snd q \<and> fst p < fst q))
     (sorted_py_reverse snd (enumerate 0 distances))
   \<and> mset (sorted_py_reverse snd (enumerate 0 distances)) = mset (enumerate 0 distances)
   \<and> sorted_wrt (\<lambda>p q. snd q < snd p \<or> (snd p = snd q \<and> fst p < fst q))
         (movies_list_of distances n)
   \<and> get_recommendations ''A'' [''A'', ''B'', ''C''] ([1, 0.5, 0.5] # others) 2
       = Inr (Some [entry ''B'' 0.5, entry ''C'' 0.5])"
proof (intro conjI)
  show "sorted_wrt (\<lambda>p q. snd q < snd p \<or> (snd p = snd q \<and> fst p < fst q))
     (sorted_py_reverse snd (enumerate 0 distances))"
    by (rule ranked_order)
  show "mset (sorted_py_reverse snd (enumerate 0 distances)) = mset (enumerate 0 distances)"
    by (rule mset_sorted_py_reverse)
  show "sorted_wrt (\<lambda>p q. snd q < snd p \<or> (snd p = snd q \<and> fst p < fst q))
         (movies_list_of distances n)"
    by (rule movies_list_of_order)
  have a: "append_loop [''A'', ''B'', ''C''] (movies_list_of [1, 0.5, 0.5] 2) []
      = Inr [entry ''B'' 0.5, entry ''C'' 0.5]"
    by code_simp
  have r: "item ([1, 0.5, 0.5] # others) 0 = Inr [1, 0.5, 0.5]"
    unfolding item_def by simp
  have i: "item0 (matching_index [''A'', ''B'', ''C''] ''A'') = Inr 0"
    by code_simp
  have "recommend_from 0 [''A'', ''B'', ''C''] ([1, 0.5, 0.5] # others) 2
      = Inr [entry ''B'' 0.5, entry ''C'' 0.5]"
    unfolding recommend_from_def r by (simp only: sum.case a)
  then show "get_recommendations ''A'' [''A'', ''B'', ''C''] ([1, 0.5, 0.5] # others) 2
       = Inr (Some [entry ''B'' 0.5, entry ''C'' 0.5])"
    by (simp add: get_recommendations_found [OF i] except_IndexError_def)
qed

text \<open>
  Claim C1, evaluated where it fails. A and B have similarity 1.0 to each other, as two
  items with the same features do. The ranking for B starts with A (same score, lower
  index), the slice from position 1 drops A, and B itself is returned as its own first
  recommendation.
\<close>

theorem query_kept_on_tie:
  "get_recommendations ''B'' [''A'', ''B'', ''C'', ''D'']
     [[1, 1, 0.3, 0.2], [1, 1, 0.3, 0.2], [0.3, 0.3, 1, 0.5], [0.2, 0.2, 0.5, 1]] 3
   = Inr (Some [entry ''B'' 1, entry ''C'' 0.3, entry ''D'' 0.2])"
  by code_simp

lemma distinct_ranked: "distinct (map fst (sorted_py_reverse snd (enumerate 0 distances)))"
proof -
  have "mset (map fst (sorted_py_reverse snd (enumerate 0 distances)))
      = mset (map fst (enumerate 0 distances))"
    by (simp only: mset_map mset_sorted_py_reverse)
  then have "distinct (map fst (sorted_py_reverse snd (enumerate 0 distances)))
      \<longleftrightarrow> distinct (map fst (enumerate 0 distances))"
    by (rule mset_eq_imp_distinct_iff)
  then show ?thesis
    by simp
qed

lemma set_py_slice_from_1: "set (py_slice xs 1 b) \<subseteq> set (tl xs)"
proof (cases xs)
  case Nil
  then show ?thesis
    by (simp add: py_slice_def slice_bound_def)
next
  case (Cons y ys)
  then show ?thesis
    by (simp add: py_slice_def slice_bound_def set_take_subset)
qed

text \<open>
  When does the slice from position 1 remove the query? Whenever the query holds the
  first rank: its own score is not exceeded in its row and no item of lower index reaches
  it. Then no returned pair carries the query's index. The tie of the evaluation above is
  the case this leaves out.
\<close>

proposition query_excluded_when_ranked_first:
  assumes "i < length distances"
      and "\<forall>j<length distances. distances ! j \<le> distances ! i"
      and "\<forall>j<i. distances ! j < distances ! i"
  shows "\<forall>p\<in>set (movies_list_of distances n). fst p \<noteq> i"
proof -
  let ?ranked = "sorted_py_reverse snd (enumerate 0 distances)"
  let ?x = "(i, distances ! i)"
  have mem: "p \<in> set ?ranked \<longleftrightarrow> fst p < length distances \<and> snd p = distances ! fst p" for p
    by (cases p) (auto simp: set_sorted_py_reverse in_set_enumerate_eq)
  from assms(1) have x: "?x \<in> set ?ranked"
    by (simp add: mem)
  then obtain h rest where ranked: "?ranked = h # rest"
    by (cases ?ranked) auto
  have "h = ?x"
  proof (rule ccontr)
    assume "h \<noteq> ?x"
    with x ranked have "?x \<in> set rest"
      by auto
    with ranked_order [of distances] ranked
    have "distances ! i < snd h \<or> (snd h = distances ! i \<and> fst h < i)"
      by auto
    moreover have h: "fst h < length distances" "snd h = distances ! fst h"
      using mem [of h] ranked by simp_all
    ultimately show False
      using assms(2,3) by (metis leD less_irrefl)
  qed
  have "fst p \<noteq> i" if "p \<in> set rest" for p
  proof
    assume "fst p = i"
    moreover from distinct_ranked [of distances] ranked \<open>h = ?x\<close>
    have "i \<notin> fst ` set rest"
      by simp
    ultimately show False
      using that by force
  qed
  moreover have "set (movies_list_of distances n) \<subseteq> set rest"
    using set_py_slice_from_1 [of ?ranked "n + 1"] ranked by (simp add: movies_list_of_def)
  ultimately show ?thesis
    by blast
qed

section \<open>Length and order of a result\<close>

lemma get_recommendations_ok:
  assumes "item0 (matching_index movies_df t) = Inr i"
      and "i < length similarity" and "length (similarity ! i) \<le> length movies_df"
  shows "get_recommendations t movies_df similarity n
     = Inr (Some (map (\<lambda>p. entry (movies_df ! fst p) (snd p)) (movies_list_of (similarity ! i) n)))"
  by (simp add: get_recommendations_found [OF assms(1)] recommend_from_ok [OF assms(2,3)]
      except_IndexError_def)

lemma found_index:
  assumes "t \<in> set movies_df"
  obtains i where "item0 (matching_index movies_df t) = Inr i" and "i < length movies_df"
proof -
  from first_occurrence [OF assms] obtain i where
    i: "i < length movies_df \<and> movies_df ! i = t \<and> (\<forall>j<i. movies_df ! j \<noteq> t)"
    by blast
  then have "item0 (matching_index movies_df t) = Inr i"
    by (rule item0_matching_index_iff [THEN iffD2])
  with i that show thesis
    by blast
qed

text \<open>
  Claim C3. For a catalog of \<open>M\<close> titles with an \<open>M \<times> M\<close> matrix, a title of the
  catalog and a count \<open>n \<ge> 0\<close>, the call returns a list of exactly \<open>min n (M - 1)\<close>
  entries, built in order from ranked pairs whose scores never increase. (The entries
  show each score as rendered text; the order is that of the scores rendered.)
\<close>

theorem result_length_and_order:
  assumes "t \<in> set movies_df"
      and "length similarity = length movies_df"
      and "\<forall>row\<in>set similarity. length row = length movies_df"
      and "0 \<le> n"
  shows "\<exists>r ms. get_recommendations t movies_df similarity n = Inr (Some r)
           \<and> length r = min (nat n) (length movies_df - 1)
           \<and> r = map (\<lambda>p. entry (movies_df ! fst p) (snd p)) ms
           \<and> sorted_wrt (\<lambda>a b. b \<le> a) (map snd ms)"
proof -
  from assms(1) obtain i where i: "item0 (matching_index movies_df t) = Inr i" "i < length movies_df"
    by (rule found_index)
  with assms(2) have row: "i < length similarity"
    by simp
  with assms(3) have len: "length (similarity ! i) = length movies_df"
    by simp
  let ?ms = "movies_list_of (similarity ! i) n"
  let ?r = "map (\<lambda>p. entry (movies_df ! fst p) (snd p)) ?ms"
  have "get_recommendations t movies_df similarity n = Inr (Some ?r)"
    using i(1) row len by (simp add: get_recommendations_ok)
  moreover have "length ?r = min (nat n) (length movies_df - 1)"
    using assms(4) len by (simp add: length_movies_list_of)
  moreover have "sorted_wrt (\<lambda>a b. b \<le> a) (map snd ?ms)"
    by (rule scores_descending)
  ultimately show ?thesis
    by blast
qed

theorem result_length_and_order_witness:
  "\<exists>r ms. get_recommendations ''A'' [''A'', ''B'', ''C'']
             [[1, 0.8, 0.2], [0.8, 1, 0.1], [0.2, 0.1, 1]] 2 = Inr (Some r)
           \<and> length r = min (nat 2) (length [''A'', ''B'', ''C''] - 1)
           \<and> r = map (\<lambda>p. entry ([''A'', ''B'', ''C''] ! fst p) (snd p)) ms
           \<and> sorted_wrt (\<lambda>a b. b \<le> a) (map snd ms)"
proof -
  have 1: "''A'' \<in> set [''A'', ''B'', ''C'']"
    by simp
  have 2: "length [[1, 0.8, 0.2], [0.8, 1, 0.1], [0.2, 0.1, 1 :: real]] = length [''A'', ''B'', ''C'']"
    by simp
  have 3: "\<forall>row\<in>set [[1, 0.8, 0.2], [0.8, 1, 0.1], [0.2, 0.1, 1 :: real]].
      length row = length [''A'', ''B'', ''C'']"
    by simp
  have 4: "(0::int) \<le> 2"
    by simp
  show ?thesis
    by (rule result_length_and_order [OF 1 2 3 4])
qed

section \<open>The entries of a result\<close>

lemma append_loop_cases:
  "append_loop df ms acc = Inl IndexError
   \<or> append_loop df ms acc = Inr (acc @ map (\<lambda>p. entry (df ! fst p) (snd p)) ms)
       \<and> (\<forall>p\<in>set ms. fst p < length df)"
proof (cases "\<forall>p\<in>set ms. fst p < length df")
  case True
  then show ?thesis
    by (simp add: append_loop_ok)
next
  case False
  then have "\<exists>p\<in>set ms. \<not> fst p < length df"
    by simp
  then show ?thesis
    by (simp only: append_loop_fail simp_thms)
qed

lemma lookup_Inr:
  assumes "lookup t movies_df similarity n = Inr r"
  shows "\<exists>i. item0 (matching_index movies_df t) = Inr i \<and> i < length similarity
           \<and> r = map (\<lambda>p. entry (movies_df ! fst p) (snd p)) (movies_list_of (similarity ! i) n)
           \<and> (\<forall>p\<in>set (movies_list_of (similarity ! i) n). fst p < length movies_df)"
proof -
  from assms obtain i where i: "item0 (matching_index movies_df t) = Inr i"
    and rf: "recommend_from i movies_df similarity n = Inr r"
    by (auto simp: lookup_def split: sum.splits)
  from rf have row: "i < length similarity"
    and loop: "append_loop movies_df (movies_list_of (similarity ! i) n) [] = Inr r"
    by (auto simp: recommend_from_def item_def split: if_splits)
  from loop append_loop_cases [of movies_df "movies_list_of (similarity ! i) n" "[]"]
  have "r = map (\<lambda>p. entry (movies_df ! fst p) (snd p)) (movies_list_of (similarity ! i) n)
      \<and> (\<forall>p\<in>set (movies_list_of (similarity ! i) n). fst p < length movies_df)"
    by auto
  with i row show ?thesis
    by blast
qed

lemma get_recommendations_Some:
  "get_recommendations t movies_df similarity n = Inr (Some r)
   \<longleftrightarrow> lookup t movies_df similarity n = Inr r"
  by (auto simp: get_recommendations_def except_IndexError_def split: sum.splits if_splits)


text \<open>
  Claim C8, as the code has it. Every element of a returned list is a dictionary with the
  keys \<^verbatim>\<open>title\<close> and \<^verbatim>\<open>similarity\<close>: for the index \<open>j\<close> of the ranked pair it comes
  from, the title is the catalog's title at \<open>j\<close>, and the similarity is the score
  \<open>S[i][j]\<close> rendered as a percentage string with two decimals, where \<open>i\<close> is the
  index the query resolves to. There is no \<^verbatim>\<open>score\<close> key and no float value.
\<close>

theorem result_entries:
  assumes "get_recommendations t movies_df similarity n = Inr (Some r)"
  shows "\<exists>i. item0 (matching_index movies_df t) = Inr i \<and> i < length similarity
           \<and> length r = length (movies_list_of (similarity ! i) n)
           \<and> (\<forall>k<length r.
                 fst (movies_list_of (similarity ! i) n ! k) < length movies_df
               \<and> fst (movies_list_of (similarity ! i) n ! k) < length (similarity ! i)
               \<and> r ! k =
                   [(''title'', Str (Lit (movies_df ! fst (movies_list_of (similarity ! i) n ! k)))),
                    (''similarity'',
                       Str (Percent2 (similarity ! i ! fst (movies_list_of (similarity ! i) n ! k))))])"
proof -
  from assms have "lookup t movies_df similarity n = Inr r"
    by (simp only: get_recommendations_Some)
  then obtain i where i: "item0 (matching_index movies_df t) = Inr i" "i < length similarity"
    and r: "r = map (\<lambda>p. entry (movies_df ! fst p) (snd p)) (movies_list_of (similarity ! i) n)"
    and bound: "\<forall>p\<in>set (movies_list_of (similarity ! i) n). fst p < length movies_df"
    using lookup_Inr by blast
  let ?ms = "movies_list_of (similarity ! i) n"
  have len: "length r = length ?ms"
    using r by simp
  have "fst (?ms ! k) < length movies_df \<and> fst (?ms ! k) < length (similarity ! i)
      \<and> r ! k = [(''title'', Str (Lit (movies_df ! fst (?ms ! k)))),
                 (''similarity'', Str (Percent2 (similarity ! i ! fst (?ms ! k))))]"
    if "k < length r" for k
  proof -
    from that len have mem: "?ms ! k \<in> set ?ms"
      by simp
    from movies_list_of_member [OF mem]
    have "fst (?ms ! k) < length (similarity ! i)" "snd (?ms ! k) = similarity ! i ! fst (?ms ! k)"
      by simp_all
    moreover from bound mem have "fst (?ms ! k) < length movies_df"
      by blast
    moreover from that len r have "r ! k = entry (movies_df ! fst (?ms ! k)) (snd (?ms ! k))"
      by simp
    ultimately show ?thesis
      by (simp add: entry_def)
  qed
  with i len show ?thesis
    by blast
qed

theorem result_entries_witness:
  "\<exists>i. item0 (matching_index [''A'', ''B'', ''C''] ''A'') = Inr i
      \<and> i < length [[1, 0.8, 0.2], [0.8, 1, 0.1], [0.2, 0.1, 1 :: real]]
      \<and> [entry ''B'' 0.8, entry ''C'' 0.2] ! 0 =
          [(''title'', Str (Lit ([''A'', ''B'', ''C'']
              ! fst (movies_list_of ([[1, 0.8, 0.2], [0.8, 1, 0.1], [0.2, 0.1, 1]] ! i) 2 ! 0)))),
           (''similarity'', Str (Percent2 ([[1, 0.8, 0.2], [0.8, 1, 0.1], [0.2, 0.1, 1]] ! i
              ! fst (movies_list_of ([[1, 0.8, 0.2], [0.8, 1, 0.1], [0.2, 0.1, 1]] ! i) 2 ! 0))))]"
proof -
  let ?df = "[''A'', ''B'', ''C'']"
  let ?sim = "[[1, 0.8, 0.2], [0.8, 1, 0.1], [0.2, 0.1, 1 :: real]]"
  let ?r = "[entry ''B'' 0.8, entry ''C'' 0.2]"
  have "get_recommendations ''A'' ?df ?sim 2 = Inr (Some ?r)"
    by code_simp
  from result_entries [OF this] obtain i where
    i: "item0 (matching_index ?df ''A'') = Inr i" "i < length ?sim"
    and all: "\<forall>k<length ?r.
                 fst (movies_list_of (?sim ! i) 2 ! k) < length ?df
               \<and> fst (movies_list_of (?sim ! i) 2 ! k) < length (?sim ! i)
               \<and> ?r ! k =
                   [(''title'', Str (Lit (?df ! fst (movies_list_of (?sim ! i) 2 ! k)))),
                    (''similarity'', Str (Percent2 (?sim ! i ! fst (movies_list_of (?sim ! i) 2 ! k))))]"
    by blast
  have "0 < length ?r"
    by simp
  with all have "?r ! 0 =
      [(''title'', Str (Lit (?df ! fst (movies_list_of (?sim ! i) 2 ! 0)))),
       (''similarity'', Str (Percent2 (?sim ! i ! fst (movies_list_of (?sim ! i) 2 ! 0))))]"
    by blast
  with i show ?thesis
    by blast
qed

text \<open>
  Claim C8 as stated fails: in the spec's own scenario the first element has no
  \<^verbatim>\<open>score\<close> key, and its \<^verbatim>\<open>similarity\<close> is a string, not the float 0.8.
\<close>

theorem score_field_counterexample:
  "get_recommendations ''A'' [''A'', ''B'', ''C''] [[1, 0.8, 0.2], [0.8, 1, 0.1], [0.2, 0.1, 1]] 2
     = Inr (Some [[(''title'', Str (Lit ''B'')), (''similarity'', Str (Percent2 0.8))],
                  [(''title'', Str (Lit ''C'')), (''similarity'', Str (Percent2 0.2))]])
   \<and> map_of [(''title'', Str (Lit ''B'')), (''similarity'', Str (Percent2 0.8))] ''score'' = None
   \<and> map_of [(''title'', Str (Lit ''B'')), (''similarity'', Str (Percent2 0.8))] ''similarity''
       \<noteq> Some (Float 0.8)"
  by code_simp

section \<open>Counts outside the slider's range\<close>

lemma movies_list_of_zero: "movies_list_of distances 0 = []"
  by (simp add: movies_list_of_nonneg)

lemma movies_list_of_minus1: "movies_list_of distances (- 1) = []"
  by (simp add: movies_list_of_def py_slice_minus1)

lemma movies_list_of_negative:
  "n < - 1 \<Longrightarrow>
   movies_list_of distances n
     = take (nat (int (length distances) + n)) (drop 1 (sorted_py_reverse snd (enumerate 0 distances)))"
  by (simp add: movies_list_of_def py_slice_negative length_sorted_py_reverse)

text \<open>
  Claim C9. \<^verbatim>\<open>get_recommendations\<close> never checks the count. For a title of the catalog
  and an \<open>M \<times> M\<close> matrix: a count of 0 or -1 returns the empty list, not \<^verbatim>\<open>None\<close>; a
  count \<open>n < -1\<close> with \<open>M > |n|\<close> returns the \<open>M + n\<close> entries at ranked positions 1 to
  \<open>M + n\<close>, a non-empty list; and every integer count returns a list.
\<close>

theorem count_not_validated:
  assumes "t \<in> set movies_df"
      and "length similarity = length movies_df"
      and "\<forall>row\<in>set similarity. length row = length movies_df"
  shows "(n = 0 \<or> n = - 1 \<longrightarrow> get_recommendations t movies_df similarity n = Inr (Some []))
       \<and> (n < - 1 \<and> - n < int (length movies_df) \<longrightarrow>
            (\<exists>i r. item0 (matching_index movies_df t) = Inr i
               \<and> get_recommendations t movies_df similarity n = Inr (Some r)
               \<and> r = map (\<lambda>p. entry (movies_df ! fst p) (snd p))
                      (take (nat (int (length movies_df) + n))
                         (drop 1 (sorted_py_reverse snd (enumerate 0 (similarity ! i)))))
               \<and> length r = nat (int (length movies_df) + n)
               \<and> r \<noteq> []))
       \<and> (\<exists>r. get_recommendations t movies_df similarity n = Inr (Some r))"
proof -
  from assms(1) obtain i where i: "item0 (matching_index movies_df t) = Inr i" "i < length movies_df"
    by (rule found_index)
  with assms(2) have row: "i < length similarity"
    by simp
  with assms(3) have len: "length (similarity ! i) = length movies_df"
    by simp
  have res: "get_recommendations t movies_df similarity m
      = Inr (Some (map (\<lambda>p. entry (movies_df ! fst p) (snd p)) (movies_list_of (similarity ! i) m)))"
    for m
    using i(1) row len by (simp add: get_recommendations_ok)
  have a: "get_recommendations t movies_df similarity n = Inr (Some [])" if "n = 0 \<or> n = - 1"
    using that by (auto simp: res movies_list_of_zero movies_list_of_minus1)
  have b: "\<exists>i r. item0 (matching_index movies_df t) = Inr i
               \<and> get_recommendations t movies_df similarity n = Inr (Some r)
               \<and> r = map (\<lambda>p. entry (movies_df ! fst p) (snd p))
                      (take (nat (int (length movies_df) + n))
                         (drop 1 (sorted_py_reverse snd (enumerate 0 (similarity ! i)))))
               \<and> length r = nat (int (length movies_df) + n)
               \<and> r \<noteq> []"
    if n: "n < - 1 \<and> - n < int (length movies_df)"
  proof -
    let ?ranked = "sorted_py_reverse snd (enumerate 0 (similarity ! i))"
    let ?r = "map (\<lambda>p. entry (movies_df ! fst p) (snd p))
                (take (nat (int (length movies_df) + n)) (drop 1 ?ranked))"
    have eq: "movies_list_of (similarity ! i) n = take (nat (int (length movies_df) + n)) (drop 1 ?ranked)"
      using n len by (simp add: movies_list_of_negative)
    have "nat (int (length movies_df) + n) \<le> length movies_df - 1"
      using n by linarith
    then have l: "length ?r = nat (int (length movies_df) + n)"
      using len by (simp add: length_sorted_py_reverse)
    have "0 < nat (int (length movies_df) + n)"
      using n by simp
    with l have "?r \<noteq> []"
      by (metis length_greater_0_conv)
    with i(1) res [of n] eq l show ?thesis
      by (intro exI [of _ i] exI [of _ ?r]) simp
  qed
  have c: "\<exists>r. get_recommendations t movies_df similarity n = Inr (Some r)"
    using res [of n] by blast
  from a b c show ?thesis
    by blast
qed


theorem count_not_validated_witness:
  "get_recommendations ''A'' [''A'', ''B'', ''C'', ''D'']
       [[1, 0.8, 0.2, 0.4], [0.8, 1, 0.1, 0.3], [0.2, 0.1, 1, 0.5], [0.4, 0.3, 0.5, 1]] (- 1)
     = Inr (Some [])
   \<and> (\<exists>r. get_recommendations ''A'' [''A'', ''B'', ''C'', ''D'']
            [[1, 0.8, 0.2, 0.4], [0.8, 1, 0.1, 0.3], [0.2, 0.1, 1, 0.5], [0.4, 0.3, 0.5, 1]] (- 2)
          = Inr (Some r)
        \<and> length r = nat (int (length [''A'', ''B'', ''C'', ''D'']) + - 2) \<and> r \<noteq> [])"
proof -
  let ?df = "[''A'', ''B'', ''C'', ''D'']"
  let ?sim = "[[1, 0.8, 0.2, 0.4], [0.8, 1, 0.1, 0.3], [0.2, 0.1, 1, 0.5], [0.4, 0.3, 0.5, 1 :: real]]"
  have 1: "''A'' \<in> set ?df"
    by simp
  have 2: "length ?sim = length ?df"
    by simp
  have 3: "\<forall>row\<in>set ?sim. length row = length ?df"
    by simp
  have 4: "(- 1 :: int) = 0 \<or> (- 1 :: int) = - 1"
    by simp
  have 5: "(- 2 :: int) < - 1 \<and> - (- 2) < int (length ?df)"
    by simp
  note w1 = count_not_validated [OF 1 2 3, of "- 1"]
  note w2 = count_not_validated [OF 1 2 3, of "- 2"]
  have a: "get_recommendations ''A'' ?df ?sim (- 1) = Inr (Some [])"
    by (rule w1 [THEN conjunct1, THEN mp, OF 4])
  have b: "\<exists>r. get_recommendations ''A'' ?df ?sim (- 2) = Inr (Some r)
        \<and> length r = nat (int (length ?df) + - 2) \<and> r \<noteq> []"
    using w2 [THEN conjunct2, THEN conjunct1, THEN mp, OF 5] by blast
  from a b show ?thesis
    by (rule conjI)
qed

section \<open>The handler\<close>

lemma get_recommendations_None:
  "get_recommendations t movies_df similarity n = Inr None
   \<longleftrightarrow> lookup t movies_df similarity n = Inl IndexError"
  by (auto simp: get_recommendations_def except_IndexError_def split: sum.splits if_splits)

lemma recommend_from_IndexError:
  "recommend_from i movies_df similarity n = Inl IndexError
   \<longleftrightarrow> length similarity \<le> i
       \<or> (\<exists>p\<in>set (movies_list_of (similarity ! i) n). length movies_df \<le> fst p)"
proof (cases "i < length similarity")
  case False
  then show ?thesis
    by (simp add: recommend_from_def item_def)
next
  case True
  then have eq: "recommend_from i movies_df similarity n
      = append_loop movies_df (movies_list_of (similarity ! i) n) []"
    by (simp add: recommend_from_def item_def)
  show ?thesis
  proof (cases "\<forall>p\<in>set (movies_list_of (similarity ! i) n). fst p < length movies_df")
    case all: True
    then have "recommend_from i movies_df similarity n
        = Inr (map (\<lambda>p. entry (movies_df ! fst p) (snd p)) (movies_list_of (similarity ! i) n))"
      unfolding eq by (simp add: append_loop_ok)
    with all True show ?thesis
      by (auto simp: not_le)
  next
    case some: False
    then have ex: "\<exists>p\<in>set (movies_list_of (similarity ! i) n). \<not> fst p < length movies_df"
      by simp
    then have "recommend_from i movies_df similarity n = Inl IndexError"
      unfolding eq by (rule append_loop_fail)
    with ex show ?thesis
      by (auto simp: not_less)
  qed
qed

lemma lookup_IndexError:
  "lookup t movies_df similarity n = Inl IndexError
   \<longleftrightarrow> t \<notin> set movies_df
       \<or> (\<exists>i. item0 (matching_index movies_df t) = Inr i
            \<and> (length similarity \<le> i
               \<or> (\<exists>p\<in>set (movies_list_of (similarity ! i) n). length movies_df \<le> fst p)))"
proof (cases "t \<in> set movies_df")
  case False
  then show ?thesis
    by (simp add: lookup_def item0_matching_index_missing)
next
  case True
  then obtain i where i: "item0 (matching_index movies_df t) = Inr i"
    by (rule found_index)
  then have "lookup t movies_df similarity n = recommend_from i movies_df similarity n"
    by (simp add: lookup_def)
  with True i show ?thesis
    by (simp add: recommend_from_IndexError)
qed


text \<open>
  Claim C10. The call returns \<^verbatim>\<open>None\<close> exactly when the body of the \<^verbatim>\<open>try\<close> block
  raises \<^verbatim>\<open>IndexError\<close>. That happens when the title is not in the catalog, and also when
  the matrix does not fit the catalog: the resolved index has no row, or a ranked index
  kept by the slice lies beyond the catalog. Both give the same \<^verbatim>\<open>None\<close>. The handler
  passes every other exception on.
\<close>

theorem none_iff_index_error:
  "(get_recommendations t movies_df similarity n = Inr None
      \<longleftrightarrow> lookup t movies_df similarity n = Inl IndexError)
   \<and> (lookup t movies_df similarity n = Inl IndexError
      \<longleftrightarrow> t \<notin> set movies_df
          \<or> (\<exists>i. item0 (matching_index movies_df t) = Inr i
               \<and> (length similarity \<le> i
                  \<or> (\<exists>p\<in>set (movies_list_of (similarity ! i) n). length movies_df \<le> fst p))))
   \<and> (\<forall>e. e \<noteq> IndexError
          \<longrightarrow> except_IndexError (Inl e :: py_error + pydict list) = Inl e)"
proof (intro conjI allI impI)
  show "get_recommendations t movies_df similarity n = Inr None
      \<longleftrightarrow> lookup t movies_df similarity n = Inl IndexError"
    by (rule get_recommendations_None)
  show "lookup t movies_df similarity n = Inl IndexError
      \<longleftrightarrow> t \<notin> set movies_df
          \<or> (\<exists>i. item0 (matching_index movies_df t) = Inr i
               \<and> (length similarity \<le> i
                  \<or> (\<exists>p\<in>set (movies_list_of (similarity ! i) n). length movies_df \<le> fst p)))"
    by (rule lookup_IndexError)
  fix e :: py_error
  assume "e \<noteq> IndexError"
  then show "except_IndexError (Inl e :: py_error + pydict list) = Inl e"
    by (simp add: except_IndexError_def)
qed

theorem none_iff_index_error_witness:
  "get_recommendations ''Z'' [''A'', ''B''] [[1, 0.5, 0.9], [0.5, 1, 0.2]] 2 = Inr None
   \<and> get_recommendations ''A'' [''A'', ''B''] [[1, 0.5, 0.9], [0.5, 1, 0.2]] 2 = Inr None
   \<and> except_IndexError (Inl KeyError :: py_error + pydict list) = Inl KeyError"
proof -
  let ?df = "[''A'', ''B'']"
  let ?sim = "[[1, 0.5, 0.9], [0.5, 1, 0.2 :: real]]"
  note z = none_iff_index_error [of "''Z''" ?df ?sim 2]
  note a = none_iff_index_error [of "''A''" ?df ?sim 2]
  have "''Z'' \<notin> set ?df"
    by simp
  then have "lookup ''Z'' ?df ?sim 2 = Inl IndexError"
    by (simp only: z [THEN conjunct2, THEN conjunct1] simp_thms)
  then have 1: "get_recommendations ''Z'' ?df ?sim 2 = Inr None"
    by (rule z [THEN conjunct1, THEN iffD2])
  have i: "item0 (matching_index ?df ''A'') = Inr 0"
    by code_simp
  have m: "movies_list_of (?sim ! 0) 2 = [(2, 0.9), (1, 0.5)]"
    by code_simp
  have "\<exists>p\<in>set (movies_list_of (?sim ! 0) 2). length ?df \<le> fst p"
    unfolding m by simp
  with i have "\<exists>i. item0 (matching_index ?df ''A'') = Inr i
       \<and> (length ?sim \<le> i \<or> (\<exists>p\<in>set (movies_list_of (?sim ! i) 2). length ?df \<le> fst p))"
    by blast
  then have "lookup ''A'' ?df ?sim 2 = Inl IndexError"
    by (simp only: a [THEN conjunct2, THEN conjunct1] simp_thms)
  then have 2: "get_recommendations ''A'' ?df ?sim 2 = Inr None"
    by (rule a [THEN conjunct1, THEN iffD2])
  have "KeyError \<noteq> IndexError"
    by simp
  with z have 3: "except_IndexError (Inl KeyError :: py_error + pydict list) = Inl KeyError"
    by blast
  from 1 2 3 show ?thesis
    by (intro conjI)
qed

section \<open>Loading\<close>

text \<open>
  Claim C7, as the code has it. \<^verbatim>\<open>load_data\<close> reads both artifacts and validates
  nothing. If either is missing or unreadable it returns \<^verbatim>\<open>(None, None)\<close>; otherwise it
  returns both exactly as read. So a caller never sees one store without the other.
\<close>

theorem load_data_all_or_nothing:
  "(load_data files = (None, None)
      \<longleftrightarrow> movies_data_pkl files = None \<or> similarity_pkl files = None)
   \<and> (\<forall>movies_df similarity.
         movies_data_pkl files = Some movies_df \<and> similarity_pkl files = Some similarity
         \<longrightarrow> load_data files = (Some movies_df, Some similarity))
   \<and> (fst (load_data files) = None \<longleftrightarrow> snd (load_data files) = None)"
  by (auto simp: load_data_def read_pickle_def split: option.splits)

theorem load_data_all_or_nothing_witness:
  "load_data \<lparr>movies_data_pkl = Some [''A'', ''B''], similarity_pkl = None\<rparr> = (None, None)
   \<and> load_data \<lparr>movies_data_pkl = Some [''A'', ''B''], similarity_pkl = Some [[1, 0.5], [0.5, 1]]\<rparr>
       = (Some [''A'', ''B''], Some [[1, 0.5], [0.5, 1]])"
proof -
  let ?half = "\<lparr>movies_data_pkl = Some [''A'', ''B''], similarity_pkl = None\<rparr>"
  let ?both = "\<lparr>movies_data_pkl = Some [''A'', ''B''],
      similarity_pkl = Some [[1, 0.5], [0.5, 1 :: real]]\<rparr>"
  have "movies_data_pkl ?half = None \<or> similarity_pkl ?half = None"
    by simp
  then have 1: "load_data ?half = (None, None)"
    by (rule load_data_all_or_nothing [of ?half, THEN conjunct1, THEN iffD2])
  have "movies_data_pkl ?both = Some [''A'', ''B'']
      \<and> similarity_pkl ?both = Some [[1, 0.5], [0.5, 1]]"
    by simp
  with load_data_all_or_nothing [of ?both]
  have 2: "load_data ?both = (Some [''A'', ''B''], Some [[1, 0.5], [0.5, 1]])"
    by blast
  from 1 2 show ?thesis
    by (rule conjI)
qed

text \<open>
  Claim C7 as stated fails: a catalog of two titles and a \<open>1 \<times> 1\<close> matrix are both
  returned as loaded.
\<close>

theorem load_data_mismatch_counterexample:
  "load_data \<lparr>movies_data_pkl = Some [''A'', ''B''], similarity_pkl = Some [[1]]\<rparr>
     = (Some [''A'', ''B''], Some [[1]])
   \<and> length [[1 :: real]] \<noteq> length [''A'', ''B'']"
  by (simp add: load_data_def read_pickle_def)

section \<open>Where the count is bounded\<close>

lemma n_recommendations_track_eq: "n_recommendations_track = [3, 4, 5, 6, 7, 8, 9, 10]"
  by code_simp

text \<open>
  Claim C6, as the code has it. The range 3 to 10 belongs to the slider: the counts it can
  deliver are exactly the integers from 3 to 10. \<^verbatim>\<open>get_recommendations\<close> has no check of
  its own and no configuration error: for a title of the catalog and an \<open>M \<times> M\<close>
  matrix it returns a list for every integer count.
\<close>

theorem count_bounded_by_slider_only:
  "set n_recommendations_track = {3..10}
   \<and> (t \<in> set movies_df \<and> length similarity = length movies_df
        \<and> (\<forall>row\<in>set similarity. length row = length movies_df)
      \<longrightarrow> (\<exists>r. get_recommendations t movies_df similarity n = Inr (Some r)))"
proof (intro conjI impI)
  show "set n_recommendations_track = {3..10}"
  proof
    show "set n_recommendations_track \<subseteq> {3..10}"
      by (simp add: n_recommendations_track_eq)
    show "{3..10} \<subseteq> set n_recommendations_track"
    proof
      fix k :: int
      assume "k \<in> {3..10}"
      then have "k = 3 \<or> k = 4 \<or> k = 5 \<or> k = 6 \<or> k = 7 \<or> k = 8 \<or> k = 9 \<or> k = 10"
        by auto
      then show "k \<in> set n_recommendations_track"
        by (auto simp: n_recommendations_track_eq)
    qed
  qed
next
  assume a: "t \<in> set movies_df \<and> length similarity = length movies_df
        \<and> (\<forall>row\<in>set similarity. length row = length movies_df)"
  from a obtain i where i: "item0 (matching_index movies_df t) = Inr i" "i < length movies_df"
    using found_index by blast
  with a have row: "i < length similarity"
    by simp
  with a have "length (similarity ! i) \<le> length movies_df"
    by simp
  with i(1) row show "\<exists>r. get_recommendations t movies_df similarity n = Inr (Some r)"
    by (simp add: get_recommendations_ok)
qed

theorem count_bounded_by_slider_only_witness:
  "\<exists>r. get_recommendations ''A'' [''A'', ''B'', ''C'']
         [[1, 0.8, 0.2], [0.8, 1, 0.1], [0.2, 0.1, 1]] 11 = Inr (Some r)"
proof -
  have "''A'' \<in> set [''A'', ''B'', ''C'']
      \<and> length [[1, 0.8, 0.2], [0.8, 1, 0.1], [0.2, 0.1, 1 :: real]] = length [''A'', ''B'', ''C'']
      \<and> (\<forall>row\<in>set [[1, 0.8, 0.2], [0.8, 1, 0.1], [0.2, 0.1, 1 :: real]].
            length row = length [''A'', ''B'', ''C''])"
    by simp
  then show ?thesis
    by (rule count_bounded_by_slider_only [THEN conjunct2, THEN mp])
qed

text \<open>
  Claim C6 as stated fails: the count 2 lies outside the range, and the call returns the
  two recommendations of the spec's own scenario instead of an error.
\<close>

theorem count_two_counterexample:
  "\<not> (3 \<le> (2 :: int) \<and> (2 :: int) \<le> 10)
   \<and> 2 \<notin> set n_recommendations_track
   \<and> get_recommendations ''A'' [''A'', ''B'', ''C'']
         [[1, 0.8, 0.2], [0.8, 1, 0.1], [0.2, 0.1, 1]] 2
       = Inr (Some [entry ''B'' 0.8, entry ''C'' 0.2])"
  by code_simp

section \<open>Searching\<close>

lemma match_here_literal:
  "match_here (map Literal q) t \<longleftrightarrow> prefix (map ascii_lower q) (map ascii_lower t)"
proof (induction q arbitrary: t)
  case Nil
  then show ?case by simp
next
  case (Cons c q)
  then show ?case
    by (cases t) (simp_all add: atom_matches_def)
qed

lemma re_search_literal:
  "re_search (map Literal q) t \<longleftrightarrow> sublist (map ascii_lower q) (map ascii_lower t)"
proof (induction t)
  case Nil
  then show ?case
    by (cases q) simp_all
next
  case (Cons c t)
  then show ?case
    by (simp add: match_here_literal sublist_Cons_right)
qed

lemma re_compile_ordinary:
  assumes "\<forall>c\<in>set q. c \<notin> set re_special"
  shows "re_compile q = Returns (map Literal q)"
proof -
  have dot: "CHR ''.'' \<in> set re_special"
    by (simp add: re_special_def)
  have "hd q \<notin> set ''*+?''" if "q \<noteq> []"
  proof -
    from that assms have "hd q \<notin> set re_special"
      by simp
    then show ?thesis
      by (auto simp: re_special_def)
  qed
  moreover have "list_all (\<lambda>c. c = CHR ''.'' \<or> c \<notin> set re_special) q"
    using assms by (simp add: list_all_iff)
  moreover have "map (\<lambda>c. if c = CHR ''.'' then AnyChar else Literal c) q = map Literal q"
    using assms dot by (intro map_cong) auto
  ultimately show ?thesis
    unfolding re_compile_def by auto
qed

text \<open>
  Where the code and the specification agree: a query without any of the pattern
  language's special characters is searched for literally, ignoring case.
\<close>

proposition filtered_movies_ordinary:
  assumes "\<forall>c\<in>set q. c \<notin> set re_special"
  shows "filtered_movies q movies_df = Returns (spec_search q movies_df)"
proof -
  have "filter (re_search (map Literal q)) movies_df = spec_search q movies_df"
    unfolding spec_search_def by (rule filter_cong) (simp_all add: re_search_literal)
  then show ?thesis
    by (simp add: filtered_movies_def re_compile_ordinary [OF assms])
qed

text \<open>
  Claim C5, evaluated where it fails. The query \<^verbatim>\<open>mr.\<close> is compiled as a pattern whose
  dot matches any character, so it finds both titles, while only the first contains it as
  a literal substring. The query \<^verbatim>\<open>*batteries\<close> starts with a repetition operator, so
  compiling it raises \<^verbatim>\<open>re.error\<close>, which nothing in \<^verbatim>\<open>main\<close> catches.
\<close>

theorem search_query_is_a_pattern:
  "filtered_movies ''mr.'' [''Mr. Nobody'', ''Mrs. Doubtfire'', ''Heat'']
     = Returns [''Mr. Nobody'', ''Mrs. Doubtfire'']
   \<and> spec_search ''mr.'' [''Mr. Nobody'', ''Mrs. Doubtfire'', ''Heat''] = [''Mr. Nobody'']
   \<and> filtered_movies ''*batteries'' [''Mr. Nobody'', ''Mrs. Doubtfire'', ''Heat'']
     = Raises ReError"
  by code_simp

end
